theory Spec2Isabelle
  imports Main
begin

section \<open>JavaScript values and strings\<close>

text \<open>
  Session state, the previous portal status and the status returned by GAS are arbitrary
  JSON values in the source. Numbers are restricted to integers (no NaN, no fractions);
  a string is a list of code units in the range U+0000 to U+00FF.
\<close>

datatype jsval =
    JUndefined
  | JNull
  | JBool bool
  | JNum int
  | JStr string
  | JArr "jsval list"
  | JObj "(string \<times> jsval) list"

text \<open>Truthiness, as used by \<^verbatim>\<open>!x\<close> and \<^verbatim>\<open>x || y\<close>.\<close>

fun truthy :: "jsval \<Rightarrow> bool" where
  "truthy JUndefined = False"
| "truthy JNull = False"
| "truthy (JBool b) = b"
| "truthy (JNum n) = (n \<noteq> 0)"
| "truthy (JStr s) = (s \<noteq> [])"
| "truthy (JArr xs) = True"
| "truthy (JObj kvs) = True"

text \<open>The number of entries of \<^verbatim>\<open>Object.keys(v)\<close> for a value that is not undefined or null.\<close>

fun object_keys_length :: "jsval \<Rightarrow> nat" where
  "object_keys_length (JStr s) = length s"
| "object_keys_length (JArr xs) = length xs"
| "object_keys_length (JObj kvs) = length kvs"
| "object_keys_length v = 0"

text \<open>An optional string property read as a value: an absent property is undefined.\<close>

fun js_of :: "string option \<Rightarrow> jsval" where
  "js_of None = JUndefined"
| "js_of (Some s) = JStr s"

text \<open>A template literal \<^verbatim>\<open>`${x}`\<close> over an optional string.\<close>

fun template :: "string option \<Rightarrow> string" where
  "template None = ''undefined''"
| "template (Some s) = s"

text \<open>\<^verbatim>\<open>String.prototype.trim\<close>: the white space of the modelled range of code units.\<close>

definition js_whitespace :: "char \<Rightarrow> bool" where
  "js_whitespace c \<longleftrightarrow>
     c \<in> set [CHR 0x09, CHR 0x0A, CHR 0x0B, CHR 0x0C, CHR 0x0D, CHR 0x20, CHR 0xA0]"

definition trim :: "string \<Rightarrow> string" where
  "trim s = rev (dropWhile js_whitespace (rev (dropWhile js_whitespace s)))"

text \<open>\<^verbatim>\<open>String.prototype.split\<close> with a one-character separator; \<^verbatim>\<open>''.split(',')\<close> is \<^verbatim>\<open>['']\<close>.\<close>

fun split :: "char \<Rightarrow> string \<Rightarrow> string list" where
  "split sep [] = [Nil]"
| "split sep (c # cs) =
     (if c = sep then Nil # split sep cs
      else (case split sep cs of
              Nil \<Rightarrow> [c # Nil]
            | w # ws \<Rightarrow> (c # w) # ws))"

text \<open>\<^verbatim>\<open>String.prototype.startsWith('/')\<close>.\<close>

fun startsWithSlash :: "string \<Rightarrow> bool" where
  "startsWithSlash [] = False"
| "startsWithSlash (c # cs) = (c = CHR ''/'')"

text \<open>\<^verbatim>\<open>String.prototype.toLowerCase\<close> on the modelled range of code units.\<close>

definition lower_char :: "char \<Rightarrow> char" where
  "lower_char c =
     (let n = (of_char c :: nat)
      in if (65 \<le> n \<and> n \<le> 90) \<or> (192 \<le> n \<and> n \<le> 222 \<and> n \<noteq> 215)
         then char_of (n + 32) else c)"

definition toLowerCase :: "string \<Rightarrow> string" where
  "toLowerCase s = map lower_char s"

text \<open>\<^verbatim>\<open>Set.prototype.has\<close> on a set of strings: only a string can be a member.\<close>

fun has :: "string list \<Rightarrow> jsval \<Rightarrow> bool" where
  "has xs (JStr s) = (s \<in> set xs)"
| "has xs v = False"


section \<open>Redirect rules and errors\<close>

text \<open>
  A rule object of the grant's configuration. Every property may be absent: the matcher
  reads \<^verbatim>\<open>rule.fromGrantsStatus || 'default'\<close>, and the startup validation is what
  requires the properties. A pre-submission rule carries only \<^verbatim>\<open>toPath\<close>.
\<close>

record RedirectRule =
  fromGrantsStatus :: "string option"
  gasStatus :: "string option"
  toGrantsStatus :: "string option"
  toPath :: "string option"

text \<open>
  What the status helper can throw: its own two \<^verbatim>\<open>new Error(...)\<close>, a TypeError of the
  runtime on a property read of undefined, and an error thrown by a collaborator (the GAS
  client, the cache service, the status update helper), which may carry a \<^verbatim>\<open>status\<close>.
\<close>

datatype error =
    NoRedirectRuleFound jsval jsval
  | GrantCodeMissing
  | TypeError
  | ServiceError "nat option"

fun err_status :: "error \<Rightarrow> nat option" where
  "err_status (ServiceError s) = s"
| "err_status e = None"


section \<open>The rule matcher\<close>

text \<open>\<^verbatim>\<open>x || 'default'\<close> on an optional string property: absent and empty give 'default'.\<close>

fun orDefault :: "string option \<Rightarrow> string" where
  "orDefault None = ''default''"
| "orDefault (Some s) = (if s = [] then ''default'' else s)"

text \<open>
  The two sets built by the callback of \<^verbatim>\<open>redirectRules.find\<close>:
  \<^verbatim>\<open>new Set((field || 'default').split(',').map((s) => s.trim()))\<close>.
\<close>

definition fromStatuses :: "RedirectRule \<Rightarrow> string list" where
  "fromStatuses rule = map trim (split CHR '','' (orDefault (fromGrantsStatus rule)))"

definition gasStatuses :: "RedirectRule \<Rightarrow> string list" where
  "gasStatuses rule = map trim (split CHR '','' (orDefault (gasStatus rule)))"

definition ruleMatches :: "jsval \<Rightarrow> jsval \<Rightarrow> RedirectRule \<Rightarrow> bool" where
  "ruleMatches fromStatus gas rule =
     (let fromMatch = has (fromStatuses rule) fromStatus \<or> has (fromStatuses rule) (JStr ''default'');
          gasMatch = has (gasStatuses rule) gas \<or> has (gasStatuses rule) (JStr ''default'')
      in fromMatch \<and> gasMatch)"

definition mapStatusToUrl :: "jsval \<Rightarrow> jsval \<Rightarrow> RedirectRule list \<Rightarrow> error + RedirectRule" where
  "mapStatusToUrl fromStatus gas redirectRules =
     (case find (ruleMatches fromStatus gas) redirectRules of
        None \<Rightarrow> Inl (NoRedirectRuleFound fromStatus gas)
      | Some match \<Rightarrow> Inr match)"

text \<open>
  The matching condition as the specification words it: the from-set is the comma-separated
  \<^verbatim>\<open>fromGrantsStatus\<close>, trimmed, and the GAS side is an equality with the rule's
  \<^verbatim>\<open>gasStatus\<close> or with 'default'.
\<close>

definition spec_ruleMatches :: "string \<Rightarrow> string \<Rightarrow> RedirectRule \<Rightarrow> bool" where
  "spec_ruleMatches fromStatus gas rule \<longleftrightarrow>
     (fromStatus \<in> set (fromStatuses rule) \<or> ''default'' \<in> set (fromStatuses rule)) \<and>
     (gasStatus rule = Some gas \<or> gasStatus rule = Some ''default'')"

definition hasFallbackRule :: "RedirectRule list \<Rightarrow> bool" where
  "hasFallbackRule rules \<longleftrightarrow>
     list_ex (\<lambda>rule. fromGrantsStatus rule = Some ''default'' \<and> gasStatus rule = Some ''default'') rules"



section \<open>Requests, contexts and the collaborators\<close>

text \<open>
  Modelled from the spec: the constants modules \<^verbatim>\<open>application-status.js\<close> and
  \<^verbatim>\<open>status-codes.js\<close> are not part of the sources. The portal statuses are the
  strings of the specification's ApplicationStatus enumeration, and not-found is 404, as
  the status helper's tests use them.
\<close>

definition ApplicationStatus_CLEARED :: string where
  "ApplicationStatus_CLEARED = ''CLEARED''"

definition ApplicationStatus_REOPENED :: string where
  "ApplicationStatus_REOPENED = ''REOPENED''"

definition statusCodes_notFound :: nat where
  "statusCodes_notFound = 404"

text \<open>\<^verbatim>\<open>metadata.grantRedirectRules\<close>: either list may be absent.\<close>

record GrantRedirectRules =
  preSubmission :: "RedirectRule list option"
  postSubmission :: "RedirectRule list option"

text \<open>
  The parts of the Hapi request the status helper reads: \<^verbatim>\<open>params?.slug\<close>,
  \<^verbatim>\<open>path\<close>, \<^verbatim>\<open>auth.credentials?.sbi\<close> and, below
  \<^verbatim>\<open>app.model?.def?.metadata\<close>, \<^verbatim>\<open>submission?.grantCode\<close>,
  \<^verbatim>\<open>grantRedirectRules\<close> and \<^verbatim>\<open>tasklistId\<close>. An optional chain that
  breaks anywhere reads as absent.
\<close>

record Request =
  slug :: "string option"
  path :: string
  sbi :: "string option"
  grantCode :: "string option"
  grantRedirectRules :: "GrantRedirectRules option"
  tasklistId :: jsval

text \<open>
  The page context: the journey's paths, the reference number and the session state, an
  object whose keys are in insertion order.
\<close>

record Context =
  paths :: "string list option"
  referenceNumber :: "string option"
  state :: "(string \<times> jsval) list"

text \<open>
  What the collaborators answer during one request: the GAS status call (either it throws,
  or the \<^verbatim>\<open>status\<close> of its JSON body), whether the two store writes throw, and the
  configured agreements base URL.
\<close>

record Env =
  gasResponse :: "error + jsval"
  setStateFailure :: "error option"
  updateApplicationStatusFailure :: "error option"
  agreementsBaseUrl :: string

text \<open>The calls made on the collaborators, in order.\<close>

datatype event =
    GetApplicationStatus string string
  | SetState "(string \<times> jsval) list"
  | UpdateApplicationStatus jsval string
  | LogSubmissionRedirectFailure string "string option" error

text \<open>\<^verbatim>\<open>h.continue\<close>, or \<^verbatim>\<open>h.redirect(url).takeover()\<close>.\<close>

datatype response = Continue | Redirect string

text \<open>Reading a property of the session state: absent reads as undefined.\<close>

definition getProp :: "(string \<times> jsval) list \<Rightarrow> string \<Rightarrow> jsval" where
  "getProp obj k = (case map_of obj k of None \<Rightarrow> JUndefined | Some v \<Rightarrow> v)"

fun outcome :: "error option \<Rightarrow> error + unit" where
  "outcome None = Inr ()"
| "outcome (Some e) = Inl e"


section \<open>The status helper\<close>

definition persistStatus ::
  "Env \<Rightarrow> Request \<Rightarrow> string option \<Rightarrow> jsval \<Rightarrow> string \<Rightarrow> (error + unit) \<times> event list" where
  "persistStatus env request newStatus previousStatus grantId =
     (if js_of newStatus = previousStatus then (Inr (), [])
      else
        let organisationId = sbi request
        in if newStatus = Some ''CLEARED''
           then (outcome (setStateFailure env),
                 [SetState [(''applicationStatus'', JStr ApplicationStatus_CLEARED)]])
           else (outcome (updateApplicationStatusFailure env),
                 [UpdateApplicationStatus (js_of newStatus)
                    (template organisationId @ '':'' @ grantId)]))"

definition shouldContinueDefault :: "jsval \<Rightarrow> string option \<Rightarrow> jsval \<Rightarrow> bool" where
  "shouldContinueDefault gas newStatus previousStatus \<longleftrightarrow>
     (gas = JStr ''AWAITING_AMENDMENTS'' \<and> newStatus = Some ''REOPENED'' \<and>
        previousStatus \<noteq> JStr ''SUBMITTED'') \<or>
     (gas = JStr ''APPLICATION_WITHDRAWN'' \<and> newStatus = Some ''CLEARED'' \<and>
        \<not> (previousStatus \<in> set [JStr ''SUBMITTED'', JStr ''REOPENED'']))"

definition hasMeaningfulState :: "(string \<times> jsval) list \<Rightarrow> bool" where
  "hasMeaningfulState st =
     (let baseStateKeys = [''$$__referenceNumber'', ''applicationStatus'', ''applicant''];
          farmPaymentsStateKeys =
            [''selectedLandParcel'', ''payment'', ''draftApplicationAnnualTotalPence''];
          baseStateKeys = baseStateKeys @ farmPaymentsStateKeys;
          landParcels = (if truthy (getProp st ''landParcels'')
                         then getProp st ''landParcels'' else JObj []);
          baseStateKeys = (if object_keys_length landParcels = 0
                           then baseStateKeys @ [''landParcels''] else baseStateKeys)
      in list_ex (\<lambda>k. \<not> (k \<in> set baseStateKeys)) (map fst st))"

definition isFormsStartPage :: "Request \<Rightarrow> Context \<Rightarrow> bool" where
  "isFormsStartPage request context =
     (let startPath = (case paths context of
                         None \<Rightarrow> None
                       | Some [] \<Rightarrow> None
                       | Some (p # ps) \<Rightarrow> Some p);
          currentPath = path request
      in if \<not> truthy (js_of (slug request)) \<or> \<not> truthy (js_of startPath) then False
         else currentPath = ''/'' @ template (slug request) @ template startPath)"

definition isTasklistPage :: "Request \<Rightarrow> bool" where
  "isTasklistPage request \<longleftrightarrow> tasklistId request \<noteq> JUndefined \<and> tasklistId request \<noteq> JNull"

definition preSubmissionRedirect :: "Request \<Rightarrow> Context \<Rightarrow> error + response" where
  "preSubmissionRedirect request context =
     (let grantId = slug request
      in case grantRedirectRules request of
           None \<Rightarrow> Inl TypeError
         | Some rules \<Rightarrow>
             (case preSubmission rules of
                None \<Rightarrow> Inl TypeError
              | Some [] \<Rightarrow> Inl TypeError
              | Some (preSubmissionRedirectRule # others) \<Rightarrow>
                  (case toPath preSubmissionRedirectRule of
                     None \<Rightarrow> Inl TypeError
                   | Some p \<Rightarrow>
                       let preSubmissionRedirectUrl =
                             (if startsWithSlash p then ''/'' @ template grantId @ p
                              else ''/'' @ template grantId @ ''/'' @ p)
                       in if hasMeaningfulState (state context) \<and>
                             isFormsStartPage request context \<and> \<not> isTasklistPage request
                          then Inr (Redirect preSubmissionRedirectUrl)
                          else Inr Continue)))"

definition shouldHandlePreSubmission :: "jsval \<Rightarrow> bool" where
  "shouldHandlePreSubmission previousStatus \<longleftrightarrow>
     \<not> truthy previousStatus \<or> previousStatus = JStr ApplicationStatus_CLEARED \<or>
     previousStatus = JStr ApplicationStatus_REOPENED"

text \<open>\<^verbatim>\<open>path.startsWith\<close> throws when the rule has no \<^verbatim>\<open>toPath\<close>.\<close>

definition buildRedirectUrl :: "string \<Rightarrow> string option \<Rightarrow> error + string" where
  "buildRedirectUrl grantId p =
     (case p of
        None \<Rightarrow> Inl TypeError
      | Some p \<Rightarrow> Inr (if startsWithSlash p then ''/'' @ grantId @ p
                       else ''/'' @ grantId @ ''/'' @ p))"

text \<open>\<^verbatim>\<open>grantRedirectRules?.postSubmission ?? []\<close> and its pre-submission counterpart.\<close>

definition postSubmissionRules :: "GrantRedirectRules option \<Rightarrow> RedirectRule list" where
  "postSubmissionRules rules =
     (case rules of
        None \<Rightarrow> []
      | Some r \<Rightarrow> (case postSubmission r of None \<Rightarrow> [] | Some l \<Rightarrow> l))"

definition preSubmissionRules :: "GrantRedirectRules option \<Rightarrow> RedirectRule list" where
  "preSubmissionRules rules =
     (case rules of
        None \<Rightarrow> []
      | Some r \<Rightarrow> (case preSubmission r of None \<Rightarrow> [] | Some l \<Rightarrow> l))"

definition handlePostSubmission ::
  "Env \<Rightarrow> Request \<Rightarrow> Context \<Rightarrow> jsval \<Rightarrow> string \<Rightarrow> GrantRedirectRules option \<Rightarrow>
     (error + response) \<times> event list" where
  "handlePostSubmission env request context previousStatus code rules =
     (let grantId = template (slug request)
      in case referenceNumber context of
           None \<Rightarrow> (Inl TypeError, [])
         | Some ref \<Rightarrow>
             let called = [GetApplicationStatus code (toLowerCase ref)]
             in (case gasResponse env of
                   Inl err \<Rightarrow> (Inl err, called)
                 | Inr gas \<Rightarrow>
                     (case mapStatusToUrl previousStatus gas (postSubmissionRules rules) of
                        Inl err \<Rightarrow> (Inl err, called)
                      | Inr rule \<Rightarrow>
                          (case persistStatus env request (toGrantsStatus rule)
                                  previousStatus grantId of
                             (Inl err, written) \<Rightarrow> (Inl err, called @ written)
                           | (Inr u, written) \<Rightarrow>
                               if shouldContinueDefault gas (toGrantsStatus rule) previousStatus
                               then (Inr Continue, called @ written)
                               else
                                 (case (if toPath rule = Some (agreementsBaseUrl env)
                                        then Inr (agreementsBaseUrl env)
                                        else buildRedirectUrl grantId (toPath rule)) of
                                    Inl err \<Rightarrow> (Inl err, called @ written)
                                  | Inr redirectUrl \<Rightarrow>
                                      (Inr (if path request = redirectUrl then Continue
                                            else Redirect redirectUrl),
                                       called @ written))))))"

definition handlePostSubmissionError ::
  "error \<Rightarrow> Request \<Rightarrow> Context \<Rightarrow> string \<Rightarrow> string \<Rightarrow> GrantRedirectRules option \<Rightarrow>
     (error + response) \<times> event list" where
  "handlePostSubmissionError err request context grantId code rules =
     (if err_status err = Some statusCodes_notFound then (Inr Continue, [])
      else
        let logged = [LogSubmissionRedirectFailure code (referenceNumber context) err]
        in case mapStatusToUrl (JStr ''default'') (JStr ''default'') (postSubmissionRules rules) of
             Inl e \<Rightarrow> (Inl e, logged)
           | Inr fallbackRule \<Rightarrow>
               (case buildRedirectUrl grantId (toPath fallbackRule) of
                  Inl e \<Rightarrow> (Inl e, logged)
                | Inr fallbackUrl \<Rightarrow>
                    (Inr (if path request = fallbackUrl then Continue
                          else Redirect fallbackUrl),
                     logged)))"

definition getGrantCode :: "Request \<Rightarrow> error + string" where
  "getGrantCode request =
     (if \<not> truthy (js_of (grantCode request)) then Inl GrantCodeMissing
      else Inr (template (grantCode request)))"

definition formsStatusCallback ::
  "Env \<Rightarrow> Request \<Rightarrow> Context \<Rightarrow> (error + response) \<times> event list" where
  "formsStatusCallback env request context =
     (let grantId = slug request
      in if \<not> truthy (js_of grantId) then (Inr Continue, [])
         else
           (case getGrantCode request of
              Inl e \<Rightarrow> (Inl e, [])
            | Inr code \<Rightarrow>
                let previousStatus = getProp (state context) ''applicationStatus'';
                    rules = grantRedirectRules request
                in if shouldHandlePreSubmission previousStatus
                   then (preSubmissionRedirect request context, [])
                   else if previousStatus \<noteq> JStr ''SUBMITTED'' then (Inr Continue, [])
                   else
                     (case handlePostSubmission env request context previousStatus code rules of
                        (Inl err, done) \<Rightarrow>
                          (case handlePostSubmissionError err request context
                                  (template grantId) code rules of
                             (res, logged) \<Rightarrow> (res, done @ logged))
                      | (Inr res, done) \<Rightarrow> (Inr res, done))))"


section \<open>Startup validation of the redirect rules\<close>

text \<open>
  The Joi schemas of \<^verbatim>\<open>form.js\<close>. \<^verbatim>\<open>Joi.string().required()\<close> accepts a present,
  non-empty string; the pattern \<^verbatim>\<open>/^\/.*/\<close> asks for a leading slash;
  \<^verbatim>\<open>Joi.object\<close> accepts no key outside the schema.
\<close>

definition joiRequiredString :: "string option \<Rightarrow> bool" where
  "joiRequiredString v \<longleftrightarrow> (case v of None \<Rightarrow> False | Some s \<Rightarrow> s \<noteq> [])"

definition joiRequiredPath :: "string option \<Rightarrow> bool" where
  "joiRequiredPath v \<longleftrightarrow> (case v of None \<Rightarrow> False | Some s \<Rightarrow> startsWithSlash s)"

definition preSubmissionRuleSchema :: "RedirectRule \<Rightarrow> bool" where
  "preSubmissionRuleSchema rule \<longleftrightarrow>
     joiRequiredPath (toPath rule) \<and> fromGrantsStatus rule = None \<and>
     gasStatus rule = None \<and> toGrantsStatus rule = None"

definition postSubmissionRuleSchema :: "RedirectRule \<Rightarrow> bool" where
  "postSubmissionRuleSchema rule \<longleftrightarrow>
     joiRequiredString (fromGrantsStatus rule) \<and> joiRequiredString (gasStatus rule) \<and>
     joiRequiredString (toGrantsStatus rule) \<and> joiRequiredPath (toPath rule)"

datatype config_error =
    InvalidPreSubmissionRules
  | InvalidPostSubmissionRules
  | NoPostSubmissionRules
  | MissingFallbackRule

definition validateGrantRedirectRules :: "GrantRedirectRules option \<Rightarrow> config_error + unit" where
  "validateGrantRedirectRules redirectRules =
     (let pre = preSubmissionRules redirectRules;
          post = postSubmissionRules redirectRules
      in if \<not> (list_all preSubmissionRuleSchema pre \<and> length pre = 1)
         then Inl InvalidPreSubmissionRules
         else if \<not> list_all postSubmissionRuleSchema post then Inl InvalidPostSubmissionRules
         else if length post = 0 then Inl NoPostSubmissionRules
         else if \<not> hasFallbackRule post then Inl MissingFallbackRule
         else Inr ())"



section \<open>The configuration of the status helper's tests\<close>

text \<open>
  The rule table, request and context of \<^verbatim>\<open>status-helper.test.js\<close>. The agreements
  configuration is mocked there to answer \<^verbatim>\<open>/agreement\<close>, and the table's placeholder
  for the agreements base URL is read as that value.
\<close>

definition mkRule :: "string \<Rightarrow> string \<Rightarrow> string \<Rightarrow> string \<Rightarrow> RedirectRule" where
  "mkRule f g t p =
     \<lparr>fromGrantsStatus = Some f, gasStatus = Some g, toGrantsStatus = Some t, toPath = Some p\<rparr>"

definition testPostSubmission :: "RedirectRule list" where
  "testPostSubmission =
     [mkRule ''SUBMITTED,REOPENED'' ''APPLICATION_WITHDRAWN'' ''CLEARED'' ''/start'',
      mkRule ''SUBMITTED'' ''AWAITING_AMENDMENTS'' ''REOPENED'' ''/summary'',
      mkRule ''REOPENED'' ''default'' ''REOPENED'' ''/summary'',
      mkRule ''SUBMITTED'' ''OFFER_SENT,OFFER_WITHDRAWN,OFFER_ACCEPTED'' ''SUBMITTED'' ''/agreement'',
      mkRule ''SUBMITTED'' ''default'' ''SUBMITTED'' ''/confirmation'',
      mkRule ''default'' ''default'' ''SUBMITTED'' ''/confirmation'']"

definition testPreSubmission :: "RedirectRule list" where
  "testPreSubmission =
     [\<lparr>fromGrantsStatus = None, gasStatus = None, toGrantsStatus = None,
       toPath = Some ''/check-selected-land-actions''\<rparr>]"

definition testRules :: "GrantRedirectRules" where
  "testRules = \<lparr>preSubmission = Some testPreSubmission, postSubmission = Some testPostSubmission\<rparr>"

definition testRequest :: "string \<Rightarrow> Request" where
  "testRequest p =
     \<lparr>slug = Some ''grant-a'', path = p, sbi = Some ''12345'', grantCode = Some ''grant-a-code'',
      grantRedirectRules = Some testRules, tasklistId = JUndefined\<rparr>"

definition testContext :: "(string \<times> jsval) list \<Rightarrow> Context" where
  "testContext st =
     \<lparr>paths = Some [''/start'', ''/confirmation''], referenceNumber = Some ''REF-001'', state = st\<rparr>"

definition testEnv :: "error + jsval \<Rightarrow> Env" where
  "testEnv answer =
     \<lparr>gasResponse = answer, setStateFailure = None, updateApplicationStatusFailure = None,
      agreementsBaseUrl = ''/agreement''\<rparr>"

text \<open>
  The pre-submission condition as the specification words it: a field beyond the
  reference-number and status bookkeeping fields.
\<close>

definition spec_hasMeaningfulState :: "(string \<times> jsval) list \<Rightarrow> bool" where
  "spec_hasMeaningfulState st \<longleftrightarrow>
     list_ex (\<lambda>k. \<not> (k \<in> set [''$$__referenceNumber'', ''applicationStatus''])) (map fst st)"


section \<open>Facts about the string helpers and the matcher\<close>

lemma split_nonempty: "split sep s \<noteq> []"
  by (induction s) (auto split: list.split)

lemma split_no_separator: "w \<in> set (split sep s) \<Longrightarrow> sep \<notin> set w"
  by (induction s arbitrary: w) (auto split: list.splits if_splits)

lemma split_length: "length (split sep s) = Suc (count_list s sep)"
  by (induction s) (auto split: list.split simp: split_nonempty)

lemma trim_default: "trim ''default'' = ''default''"
  by (simp add: trim_def js_whitespace_def)

lemma fallback_ruleMatches:
  assumes "fromGrantsStatus r = Some ''default''" and "gasStatus r = Some ''default''"
  shows "ruleMatches f g r"
  using assms by (simp add: ruleMatches_def fromStatuses_def gasStatuses_def trim_default)

lemma ruleMatches_strings:
  "ruleMatches (JStr f) (JStr g) x \<longleftrightarrow>
     (f \<in> set (fromStatuses x) \<or> ''default'' \<in> set (fromStatuses x)) \<and>
     (g \<in> set (gasStatuses x) \<or> ''default'' \<in> set (gasStatuses x))"
  by (simp add: ruleMatches_def)

lemma lower_ref: "toLowerCase ''REF-001'' = ''ref-001''"
  by code_simp

lemmas rule_eval = testPostSubmission_def mkRule_def fromStatuses_def gasStatuses_def
  trim_def js_whitespace_def

lemmas fixture_eval = testRequest_def testContext_def testEnv_def testRules_def
  testPreSubmission_def getProp_def postSubmissionRules_def

lemmas callback_eval = formsStatusCallback_def getGrantCode_def shouldHandlePreSubmission_def
  ApplicationStatus_CLEARED_def ApplicationStatus_REOPENED_def handlePostSubmission_def
  handlePostSubmissionError_def statusCodes_notFound_def persistStatus_def
  shouldContinueDefault_def buildRedirectUrl_def preSubmissionRedirect_def
  hasMeaningfulState_def isFormsStartPage_def isTasklistPage_def toLowerCase_def lower_char_def
  mapStatusToUrl_def ruleMatches_def Let_def


section \<open>Facts about the orchestrator\<close>

lemma submitted_not_preSubmission:
  "\<not> shouldHandlePreSubmission (JStr ''SUBMITTED'')"
  by (simp add: shouldHandlePreSubmission_def ApplicationStatus_CLEARED_def
      ApplicationStatus_REOPENED_def)

lemma reopened_preSubmission: "shouldHandlePreSubmission (JStr ''REOPENED'')"
  by (simp add: shouldHandlePreSubmission_def ApplicationStatus_REOPENED_def)

lemma guard_submitted: "\<not> shouldContinueDefault g n (JStr ''SUBMITTED'')"
  by (simp add: shouldContinueDefault_def)

text \<open>With a slug, a grant code and the status SUBMITTED, the callback is the try/catch.\<close>

lemma callback_submitted:
  assumes "slug req = Some s" "s \<noteq> []" "grantCode req = Some c" "c \<noteq> []"
    and "getProp (state ctx) ''applicationStatus'' = JStr ''SUBMITTED''"
  shows "formsStatusCallback env req ctx =
           (case handlePostSubmission env req ctx (JStr ''SUBMITTED'') c (grantRedirectRules req) of
              (Inl err, done) \<Rightarrow>
                (case handlePostSubmissionError err req ctx s c (grantRedirectRules req) of
                   (res, logged) \<Rightarrow> (res, done @ logged))
            | (Inr res, done) \<Rightarrow> (Inr res, done))"
  using assms
  by (simp add: formsStatusCallback_def getGrantCode_def submitted_not_preSubmission Let_def
      split: prod.split sum.split)

lemma handlePostSubmission_success:
  assumes "referenceNumber ctx = Some ref" "gasResponse env = Inr g"
    and "mapStatusToUrl prev g (postSubmissionRules rules) = Inr r"
    and "fst (persistStatus env req (toGrantsStatus r) prev (template (slug req))) = Inr ()"
    and "\<not> shouldContinueDefault g (toGrantsStatus r) prev"
    and "toPath r = Some p"
  shows "handlePostSubmission env req ctx prev c rules =
           (let dest = (if p = agreementsBaseUrl env then p
                        else if startsWithSlash p then ''/'' @ template (slug req) @ p
                        else ''/'' @ template (slug req) @ ''/'' @ p)
            in (Inr (if path req = dest then Continue else Redirect dest),
                GetApplicationStatus c (toLowerCase ref) #
                snd (persistStatus env req (toGrantsStatus r) prev (template (slug req)))))"
proof (cases "persistStatus env req (toGrantsStatus r) prev (template (slug req))")
  case (Pair a b)
  with assms(4) have a: "a = Inr ()" by simp
  show ?thesis
    using assms(1,2,3,5,6) Pair a
    by (simp add: handlePostSubmission_def buildRedirectUrl_def Let_def)
qed

lemma callback_success:
  assumes "slug req = Some s" "s \<noteq> []" "grantCode req = Some c" "c \<noteq> []"
    and "getProp (state ctx) ''applicationStatus'' = JStr ''SUBMITTED''"
    and "referenceNumber ctx = Some ref" "gasResponse env = Inr g"
    and "mapStatusToUrl (JStr ''SUBMITTED'') g (postSubmissionRules (grantRedirectRules req)) = Inr r"
    and "fst (persistStatus env req (toGrantsStatus r) (JStr ''SUBMITTED'') s) = Inr ()"
    and "toPath r = Some p"
  shows "formsStatusCallback env req ctx =
           (let dest = (if p = agreementsBaseUrl env then p
                        else if startsWithSlash p then ''/'' @ s @ p
                        else ''/'' @ s @ ''/'' @ p)
            in (Inr (if path req = dest then Continue else Redirect dest),
                GetApplicationStatus c (toLowerCase ref) #
                snd (persistStatus env req (toGrantsStatus r) (JStr ''SUBMITTED'') s)))"
proof -
  have t: "template (slug req) = s" using assms(1) by simp
  have "handlePostSubmission env req ctx (JStr ''SUBMITTED'') c (grantRedirectRules req) =
           (let dest = (if p = agreementsBaseUrl env then p
                        else if startsWithSlash p then ''/'' @ template (slug req) @ p
                        else ''/'' @ template (slug req) @ ''/'' @ p)
            in (Inr (if path req = dest then Continue else Redirect dest),
                GetApplicationStatus c (toLowerCase ref) #
                snd (persistStatus env req (toGrantsStatus r) (JStr ''SUBMITTED'')
                       (template (slug req)))))"
    using assms(6,7,8,9,10) guard_submitted
    by (intro handlePostSubmission_success) (simp_all add: t)
  then show ?thesis
    using callback_submitted[OF assms(1-5), of env]
    by (simp add: t Let_def)
qed

lemma callback_failure:
  assumes "slug req = Some s" "s \<noteq> []" "grantCode req = Some c" "c \<noteq> []"
    and "getProp (state ctx) ''applicationStatus'' = JStr ''SUBMITTED''"
    and "referenceNumber ctx = Some ref" "gasResponse env = Inl err"
  shows "formsStatusCallback env req ctx =
           (case handlePostSubmissionError err req ctx s c (grantRedirectRules req) of
              (res, logged) \<Rightarrow> (res, GetApplicationStatus c (toLowerCase ref) # logged))"
  using assms(6,7) callback_submitted[OF assms(1-5), of env]
  by (simp add: handlePostSubmission_def Let_def)

lemma callback_presubmission:
  assumes "shouldHandlePreSubmission (getProp (state ctx) ''applicationStatus'')"
  shows "snd (formsStatusCallback env req ctx) = []"
  using assms
  by (simp add: formsStatusCallback_def Let_def split: sum.split)

lemma callback_not_submitted:
  assumes "getProp (state ctx) ''applicationStatus'' \<noteq> JStr ''SUBMITTED''"
  shows "snd (formsStatusCallback env req ctx) = []"
  using assms
  by (simp add: formsStatusCallback_def Let_def split: sum.split)

lemma callback_independent:
  assumes "getProp (state ctx) ''applicationStatus'' \<noteq> JStr ''SUBMITTED''"
  shows "formsStatusCallback env req ctx = formsStatusCallback env' req ctx"
  using assms
  by (simp add: formsStatusCallback_def Let_def split: sum.split)

lemma callback_other_status:
  assumes "getProp (state ctx) ''applicationStatus'' \<noteq> JStr ''SUBMITTED''"
    and "\<not> shouldHandlePreSubmission (getProp (state ctx) ''applicationStatus'')"
    and "grantCode req = Some c" "c \<noteq> []"
  shows "formsStatusCallback env req ctx = (Inr Continue, [])"
  using assms
  by (simp add: formsStatusCallback_def getGrantCode_def Let_def)

lemma callback_resume:
  assumes "shouldHandlePreSubmission (getProp (state ctx) ''applicationStatus'')"
    and "slug req = Some s" "s \<noteq> []" "grantCode req = Some c" "c \<noteq> []"
    and "grantRedirectRules req = Some grr" "preSubmission grr = Some (pr # others)"
    and "toPath pr = Some p"
  shows "formsStatusCallback env req ctx =
           (Inr (if hasMeaningfulState (state ctx) \<and> isFormsStartPage req ctx \<and>
                    \<not> isTasklistPage req
                 then Redirect (if startsWithSlash p then ''/'' @ s @ p else ''/'' @ s @ ''/'' @ p)
                 else Continue), [])"
  using assms
  by (simp add: formsStatusCallback_def getGrantCode_def preSubmissionRedirect_def Let_def)

lemma hasMeaningfulState_iff:
  "hasMeaningfulState st \<longleftrightarrow>
     (\<exists>k \<in> fst ` set st.
        k \<notin> {''$$__referenceNumber'', ''applicationStatus'', ''applicant'',
              ''selectedLandParcel'', ''payment'', ''draftApplicationAnnualTotalPence''} \<and>
        (k = ''landParcels'' \<longrightarrow> object_keys_length (getProp st ''landParcels'') \<noteq> 0))"
proof -
  have z: "object_keys_length v \<noteq> 0 \<Longrightarrow> truthy v" for v
    by (cases v) auto
  show ?thesis
  proof (cases "object_keys_length (getProp st ''landParcels'') = 0")
    case True
    then show ?thesis
      by (auto simp add: hasMeaningfulState_def Let_def list_ex_iff)
  next
    case False
    with z have "truthy (getProp st ''landParcels'')" by blast
    with False show ?thesis
      by (auto simp add: hasMeaningfulState_def Let_def list_ex_iff)
  qed
qed

lemma isFormsStartPage_iff:
  "isFormsStartPage req ctx \<longleftrightarrow>
     (\<exists>s p0 ps. slug req = Some s \<and> s \<noteq> [] \<and> paths ctx = Some (p0 # ps) \<and> p0 \<noteq> [] \<and>
        path req = ''/'' @ s @ p0)"
  by (cases "slug req"; cases "paths ctx")
     (auto simp add: isFormsStartPage_def Let_def split: list.split)

lemma persistStatus_path:
  "persistStatus env (req\<lparr>path := u\<rparr>) n prev g = persistStatus env req n prev g"
  by (simp add: persistStatus_def)

lemma handlePostSubmissionError_redirect:
  assumes "fst (handlePostSubmissionError err req ctx s c rules) = Inr (Redirect url)"
  shows "fst (handlePostSubmissionError err (req\<lparr>path := url\<rparr>) ctx s c rules) = Inr Continue"
  using assms
  by (auto simp add: handlePostSubmissionError_def Let_def split: if_splits sum.splits)

lemma handlePostSubmission_redirect:
  assumes "fst (handlePostSubmission env req ctx prev c rules) = Inr (Redirect url)"
  shows "fst (handlePostSubmission env (req\<lparr>path := url\<rparr>) ctx prev c rules) = Inr Continue"
  using assms
  by (auto simp add: handlePostSubmission_def persistStatus_path Let_def
      split: if_splits sum.splits option.splits prod.splits)

lemma handlePostSubmission_error_path:
  assumes "fst (handlePostSubmission env req ctx prev c rules) = Inl err"
  shows "fst (handlePostSubmission env (req\<lparr>path := url\<rparr>) ctx prev c rules) = Inl err"
  using assms
  by (auto simp add: handlePostSubmission_def persistStatus_path Let_def
      split: if_splits sum.splits option.splits prod.splits)

lemma callback_redirect_then_continue:
  assumes "getProp (state ctx) ''applicationStatus'' = JStr ''SUBMITTED''"
    and "fst (formsStatusCallback env req ctx) = Inr (Redirect url)"
  shows "fst (formsStatusCallback env (req\<lparr>path := url\<rparr>) ctx) = Inr Continue"
proof -
  from assms obtain s c where sc: "slug req = Some s" "s \<noteq> []" "grantCode req = Some c" "c \<noteq> []"
    by (cases "slug req"; cases "grantCode req")
       (auto simp add: formsStatusCallback_def getGrantCode_def Let_def split: if_splits)
  let ?req = "req\<lparr>path := url\<rparr>"
  have sc': "slug ?req = Some s" "grantCode ?req = Some c" using sc by simp_all
  note e1 = callback_submitted[OF sc assms(1), of env]
  note e2 = callback_submitted[OF sc'(1) sc(2) sc'(2) sc(4) assms(1), of env]
  obtain a evs where
    h: "handlePostSubmission env req ctx (JStr ''SUBMITTED'') c (grantRedirectRules req) = (a, evs)"
    by (cases "handlePostSubmission env req ctx (JStr ''SUBMITTED'') c (grantRedirectRules req)")
  obtain a' evs' where
    h': "handlePostSubmission env ?req ctx (JStr ''SUBMITTED'') c (grantRedirectRules req) = (a', evs')"
    by (cases "handlePostSubmission env ?req ctx (JStr ''SUBMITTED'') c (grantRedirectRules req)")
  show ?thesis
  proof (cases a)
    case (Inl err)
    with h have "fst (handlePostSubmission env req ctx (JStr ''SUBMITTED'') c
                        (grantRedirectRules req)) = Inl err"
      by simp
    from handlePostSubmission_error_path[OF this, of url] h' have a': "a' = Inl err" by simp
    from assms(2) e1 h Inl
    have "fst (handlePostSubmissionError err req ctx s c (grantRedirectRules req)) =
            Inr (Redirect url)"
      by (simp split: prod.splits)
    from handlePostSubmissionError_redirect[OF this] show ?thesis
      using e2 h' a' by (simp split: prod.splits)
  next
    case (Inr res)
    with assms(2) e1 h
    have "fst (handlePostSubmission env req ctx (JStr ''SUBMITTED'') c
                 (grantRedirectRules req)) = Inr (Redirect url)"
      by simp
    from handlePostSubmission_redirect[OF this] h' have "a' = Inr Continue" by simp
    then show ?thesis using e2 h' by simp
  qed
qed

lemma validateGrantRedirectRules_accepts_testRules:
  "validateGrantRedirectRules (Some testRules) = Inr ()"
  by (simp add: validateGrantRedirectRules_def hasFallbackRule_def Let_def testRules_def
      preSubmissionRules_def postSubmissionRules_def testPreSubmission_def testPostSubmission_def
      mkRule_def preSubmissionRuleSchema_def postSubmissionRuleSchema_def joiRequiredPath_def
      joiRequiredString_def)


section \<open>The rule matcher: first match in declaration order\<close>

text \<open>
  C1, as the code has it. For status strings \<open>f\<close> and \<open>g\<close>, \<open>mapStatusToUrl\<close> returns the
  rule at the least index whose from-set (the comma-separated \<^verbatim>\<open>fromGrantsStatus\<close>,
  trimmed) contains \<open>f\<close> or 'default' and whose GAS-set (the comma-separated
  \<^verbatim>\<open>gasStatus\<close>, trimmed, in the same way) contains \<open>g\<close> or 'default'; an absent or
  empty property counts as 'default'. No earlier rule satisfies the condition, so an earlier
  match wins over any later rule. It throws exactly when no rule satisfies the condition.
\<close>

theorem mapStatusToUrl_first_match:
  "(mapStatusToUrl (JStr f) (JStr g) rules = Inr r \<longleftrightarrow>
     (\<exists>i<length rules. rules ! i = r \<and>
        (f \<in> set (fromStatuses r) \<or> ''default'' \<in> set (fromStatuses r)) \<and>
        (g \<in> set (gasStatuses r) \<or> ''default'' \<in> set (gasStatuses r)) \<and>
        (\<forall>j<i. \<not> ((f \<in> set (fromStatuses (rules ! j)) \<or>
                      ''default'' \<in> set (fromStatuses (rules ! j))) \<and>
                     (g \<in> set (gasStatuses (rules ! j)) \<or>
                      ''default'' \<in> set (gasStatuses (rules ! j))))))) \<and>
   (mapStatusToUrl (JStr f) (JStr g) rules = Inl e \<longleftrightarrow>
     e = NoRedirectRuleFound (JStr f) (JStr g) \<and>
     (\<forall>x \<in> set rules.
        \<not> ((f \<in> set (fromStatuses x) \<or> ''default'' \<in> set (fromStatuses x)) \<and>
           (g \<in> set (gasStatuses x) \<or> ''default'' \<in> set (gasStatuses x)))))"
proof
  have "mapStatusToUrl (JStr f) (JStr g) rules = Inr r \<longleftrightarrow>
          find (ruleMatches (JStr f) (JStr g)) rules = Some r"
    by (simp add: mapStatusToUrl_def split: option.split)
  also have "\<dots> \<longleftrightarrow>
      (\<exists>i<length rules. ruleMatches (JStr f) (JStr g) (rules ! i) \<and> r = rules ! i \<and>
         (\<forall>j<i. \<not> ruleMatches (JStr f) (JStr g) (rules ! j)))"
    by (rule find_Some_iff)
  finally show "mapStatusToUrl (JStr f) (JStr g) rules = Inr r \<longleftrightarrow>
     (\<exists>i<length rules. rules ! i = r \<and>
        (f \<in> set (fromStatuses r) \<or> ''default'' \<in> set (fromStatuses r)) \<and>
        (g \<in> set (gasStatuses r) \<or> ''default'' \<in> set (gasStatuses r)) \<and>
        (\<forall>j<i. \<not> ((f \<in> set (fromStatuses (rules ! j)) \<or>
                      ''default'' \<in> set (fromStatuses (rules ! j))) \<and>
                     (g \<in> set (gasStatuses (rules ! j)) \<or>
                      ''default'' \<in> set (gasStatuses (rules ! j))))))"
    unfolding ruleMatches_strings by blast
next
  have "mapStatusToUrl (JStr f) (JStr g) rules = Inl e \<longleftrightarrow>
          e = NoRedirectRuleFound (JStr f) (JStr g) \<and>
          find (ruleMatches (JStr f) (JStr g)) rules = None"
    by (auto simp add: mapStatusToUrl_def split: option.splits)
  also have "find (ruleMatches (JStr f) (JStr g)) rules = None \<longleftrightarrow>
               (\<forall>x \<in> set rules. \<not> ruleMatches (JStr f) (JStr g) x)"
    by (auto simp add: find_None_iff)
  finally show "mapStatusToUrl (JStr f) (JStr g) rules = Inl e \<longleftrightarrow>
     e = NoRedirectRuleFound (JStr f) (JStr g) \<and>
     (\<forall>x \<in> set rules.
        \<not> ((f \<in> set (fromStatuses x) \<or> ''default'' \<in> set (fromStatuses x)) \<and>
           (g \<in> set (gasStatuses x) \<or> ''default'' \<in> set (gasStatuses x))))"
    unfolding ruleMatches_strings .
qed

text \<open>
  The theorem at two tables: the second rule of the test table is the first match for
  (SUBMITTED, AWAITING_AMENDMENTS), and a default rule declared first wins over a later,
  more specific rule.
\<close>

theorem mapStatusToUrl_first_match_witness:
  "mapStatusToUrl (JStr ''SUBMITTED'') (JStr ''AWAITING_AMENDMENTS'') testPostSubmission =
     Inr (mkRule ''SUBMITTED'' ''AWAITING_AMENDMENTS'' ''REOPENED'' ''/summary'') \<and>
   mapStatusToUrl (JStr ''SUBMITTED'') (JStr ''RECEIVED'')
     [mkRule ''default'' ''default'' ''SUBMITTED'' ''/confirmation'',
      mkRule ''SUBMITTED'' ''RECEIVED'' ''SUBMITTED'' ''/received''] =
     Inr (mkRule ''default'' ''default'' ''SUBMITTED'' ''/confirmation'')"
proof
  show "mapStatusToUrl (JStr ''SUBMITTED'') (JStr ''AWAITING_AMENDMENTS'') testPostSubmission =
     Inr (mkRule ''SUBMITTED'' ''AWAITING_AMENDMENTS'' ''REOPENED'' ''/summary'')"
    by (rule iffD2[OF mapStatusToUrl_first_match[THEN conjunct1]], rule exI[of _ 1])
       (simp add: rule_eval)
  show "mapStatusToUrl (JStr ''SUBMITTED'') (JStr ''RECEIVED'')
     [mkRule ''default'' ''default'' ''SUBMITTED'' ''/confirmation'',
      mkRule ''SUBMITTED'' ''RECEIVED'' ''SUBMITTED'' ''/received''] =
     Inr (mkRule ''default'' ''default'' ''SUBMITTED'' ''/confirmation'')"
    by (rule iffD2[OF mapStatusToUrl_first_match[THEN conjunct1]], rule exI[of _ 0])
       (simp add: rule_eval)
qed

text \<open>
  C1 as worded fails on the GAS side: the rule with gasStatus
  \<^verbatim>\<open>OFFER_SENT,OFFER_WITHDRAWN,OFFER_ACCEPTED\<close> is returned for the GAS status OFFER_SENT,
  though its gasStatus neither equals OFFER_SENT nor is 'default'; the first rule that
  satisfies the worded condition is the later (SUBMITTED, default) rule.
\<close>

theorem mapStatusToUrl_gas_list_counterexample:
  "mapStatusToUrl (JStr ''SUBMITTED'') (JStr ''OFFER_SENT'') testPostSubmission =
     Inr (mkRule ''SUBMITTED'' ''OFFER_SENT,OFFER_WITHDRAWN,OFFER_ACCEPTED'' ''SUBMITTED''
            ''/agreement'') \<and>
   \<not> spec_ruleMatches ''SUBMITTED'' ''OFFER_SENT''
       (mkRule ''SUBMITTED'' ''OFFER_SENT,OFFER_WITHDRAWN,OFFER_ACCEPTED'' ''SUBMITTED''
          ''/agreement'') \<and>
   find (spec_ruleMatches ''SUBMITTED'' ''OFFER_SENT'') testPostSubmission =
     Some (mkRule ''SUBMITTED'' ''default'' ''SUBMITTED'' ''/confirmation'')"
  by (simp add: mapStatusToUrl_def ruleMatches_def spec_ruleMatches_def rule_eval)


section \<open>The rule matcher: totality under a fallback rule\<close>

text \<open>
  C2. If the rule list holds a rule with fromGrantsStatus 'default' and gasStatus 'default',
  \<open>mapStatusToUrl\<close> returns a rule for every pair of statuses (strings or any other
  value); and whenever it throws, the list holds no such rule.
\<close>

theorem mapStatusToUrl_total:
  "((\<exists>r \<in> set rules. fromGrantsStatus r = Some ''default'' \<and> gasStatus r = Some ''default'')
      \<longrightarrow> (\<exists>m. mapStatusToUrl f g rules = Inr m)) \<and>
   ((\<exists>e. mapStatusToUrl f g rules = Inl e)
      \<longrightarrow> \<not> (\<exists>r \<in> set rules. fromGrantsStatus r = Some ''default'' \<and>
                               gasStatus r = Some ''default''))"
proof -
  have "\<exists>m. mapStatusToUrl f g rules = Inr m"
    if "r \<in> set rules" "fromGrantsStatus r = Some ''default''" "gasStatus r = Some ''default''"
    for r
  proof -
    from that have "\<exists>x. x \<in> set rules \<and> ruleMatches f g x"
      using fallback_ruleMatches by blast
    then have "find (ruleMatches f g) rules \<noteq> None"
      by (simp add: find_None_iff)
    then show ?thesis
      by (auto simp: mapStatusToUrl_def split: option.split)
  qed
  then show ?thesis by fastforce
qed

theorem mapStatusToUrl_total_witness:
  "\<exists>m. mapStatusToUrl (JStr ''SUBMITTED'') (JStr ''SOMETHING_NEW'') testPostSubmission = Inr m"
proof -
  have "\<exists>r \<in> set testPostSubmission.
          fromGrantsStatus r = Some ''default'' \<and> gasStatus r = Some ''default''"
    by (simp add: testPostSubmission_def mkRule_def)
  with mapStatusToUrl_total[of testPostSubmission "JStr ''SUBMITTED''" "JStr ''SOMETHING_NEW''"]
  show ?thesis by blast
qed


section \<open>Failure of the GAS status call\<close>

text \<open>
  What the callback does when the GAS call throws, for a SUBMITTED application of a grant
  with a slug, a grant code and a reference number. With status 404 it returns continue and
  neither logs nor redirects. With any other error it logs the failure, matches
  ('default', 'default') and hands the fallback rule's path to \<open>buildRedirectUrl\<close>; it
  continues when the request path is the result and redirects to it otherwise.
\<close>

lemma gas_failure_outcome:
  assumes "slug req = Some s" "s \<noteq> []" "grantCode req = Some c" "c \<noteq> []"
    and "getProp (state ctx) ''applicationStatus'' = JStr ''SUBMITTED''"
    and "referenceNumber ctx = Some ref" "gasResponse env = Inl err"
  shows "(err_status err = Some 404 \<longrightarrow>
            formsStatusCallback env req ctx =
              (Inr Continue, [GetApplicationStatus c (toLowerCase ref)])) \<and>
         (err_status err \<noteq> Some 404 \<longrightarrow>
            formsStatusCallback env req ctx =
              (case mapStatusToUrl (JStr ''default'') (JStr ''default'')
                      (postSubmissionRules (grantRedirectRules req)) of
                 Inl e \<Rightarrow> Inl e
               | Inr fallbackRule \<Rightarrow>
                   (case buildRedirectUrl s (toPath fallbackRule) of
                      Inl e \<Rightarrow> Inl e
                    | Inr dest \<Rightarrow> Inr (if path req = dest then Continue else Redirect dest)),
               [GetApplicationStatus c (toLowerCase ref),
                LogSubmissionRedirectFailure c (Some ref) err]))"
  using assms(6) callback_failure[OF assms]
  by (simp add: handlePostSubmissionError_def statusCodes_notFound_def Let_def
      split: sum.split)

text \<open>
  C3. The claim has the fallback destination computed the same way as on the success path,
  where a rule path equal to the agreements base URL is the destination as it is. The code
  does not do so. The rule table below passes the startup validation; its default/default
  rule leads to the agreements base URL. When GAS answers, that rule sends the applicant to
  \<^verbatim>\<open>/agreement\<close>; when the GAS call throws a 500, the same rule, matched as the fallback,
  sends them to \<^verbatim>\<open>/grant-a/agreement\<close>, because \<open>handlePostSubmissionError\<close> calls
  \<open>buildRedirectUrl\<close> without the test against the base URL that
  \<open>handlePostSubmission\<close> makes.
\<close>

theorem fallback_destination_differs:
  "validateGrantRedirectRules
     (Some \<lparr>preSubmission = Some testPreSubmission,
            postSubmission =
              Some [mkRule ''default'' ''default'' ''SUBMITTED'' ''/agreement'']\<rparr>) = Inr () \<and>
   formsStatusCallback (testEnv (Inl (ServiceError (Some 500))))
     ((testRequest ''/grant-a/start'')
        \<lparr>grantRedirectRules := Some \<lparr>preSubmission = Some testPreSubmission,
            postSubmission =
              Some [mkRule ''default'' ''default'' ''SUBMITTED'' ''/agreement'']\<rparr>\<rparr>)
     (testContext [(''applicationStatus'', JStr ''SUBMITTED'')])
     = (Inr (Redirect ''/grant-a/agreement''),
        [GetApplicationStatus ''grant-a-code'' ''ref-001'',
         LogSubmissionRedirectFailure ''grant-a-code'' (Some ''REF-001'')
           (ServiceError (Some 500))]) \<and>
   formsStatusCallback (testEnv (Inr (JStr ''RECEIVED'')))
     ((testRequest ''/grant-a/start'')
        \<lparr>grantRedirectRules := Some \<lparr>preSubmission = Some testPreSubmission,
            postSubmission =
              Some [mkRule ''default'' ''default'' ''SUBMITTED'' ''/agreement'']\<rparr>\<rparr>)
     (testContext [(''applicationStatus'', JStr ''SUBMITTED'')])
     = (Inr (Redirect ''/agreement''), [GetApplicationStatus ''grant-a-code'' ''ref-001''])"
proof (intro conjI)
  show "validateGrantRedirectRules
     (Some \<lparr>preSubmission = Some testPreSubmission,
            postSubmission =
              Some [mkRule ''default'' ''default'' ''SUBMITTED'' ''/agreement'']\<rparr>) = Inr ()"
    by (simp add: validateGrantRedirectRules_def hasFallbackRule_def Let_def
        preSubmissionRules_def postSubmissionRules_def testPreSubmission_def mkRule_def
        preSubmissionRuleSchema_def postSubmissionRuleSchema_def joiRequiredPath_def
        joiRequiredString_def)
  show "formsStatusCallback (testEnv (Inl (ServiceError (Some 500))))
     ((testRequest ''/grant-a/start'')
        \<lparr>grantRedirectRules := Some \<lparr>preSubmission = Some testPreSubmission,
            postSubmission =
              Some [mkRule ''default'' ''default'' ''SUBMITTED'' ''/agreement'']\<rparr>\<rparr>)
     (testContext [(''applicationStatus'', JStr ''SUBMITTED'')])
     = (Inr (Redirect ''/grant-a/agreement''),
        [GetApplicationStatus ''grant-a-code'' ''ref-001'',
         LogSubmissionRedirectFailure ''grant-a-code'' (Some ''REF-001'')
           (ServiceError (Some 500))])"
    by (simp add: formsStatusCallback_def getGrantCode_def shouldHandlePreSubmission_def
        ApplicationStatus_CLEARED_def ApplicationStatus_REOPENED_def handlePostSubmission_def
        handlePostSubmissionError_def statusCodes_notFound_def buildRedirectUrl_def
        mapStatusToUrl_def ruleMatches_def Let_def lower_ref fixture_eval rule_eval)
  show "formsStatusCallback (testEnv (Inr (JStr ''RECEIVED'')))
     ((testRequest ''/grant-a/start'')
        \<lparr>grantRedirectRules := Some \<lparr>preSubmission = Some testPreSubmission,
            postSubmission =
              Some [mkRule ''default'' ''default'' ''SUBMITTED'' ''/agreement'']\<rparr>\<rparr>)
     (testContext [(''applicationStatus'', JStr ''SUBMITTED'')])
     = (Inr (Redirect ''/agreement''), [GetApplicationStatus ''grant-a-code'' ''ref-001''])"
    by (simp add: formsStatusCallback_def getGrantCode_def shouldHandlePreSubmission_def
        ApplicationStatus_CLEARED_def ApplicationStatus_REOPENED_def handlePostSubmission_def
        persistStatus_def shouldContinueDefault_def buildRedirectUrl_def
        mapStatusToUrl_def ruleMatches_def Let_def lower_ref fixture_eval rule_eval)
qed


section \<open>Persisting a status\<close>

text \<open>
  C4. \<open>persistStatus\<close> makes no call when the new status is the previous status. When
  they differ, the status CLEARED is written by one \<^verbatim>\<open>setState\<close> call that replaces the
  session state with \<^verbatim>\<open>{applicationStatus: CLEARED}\<close>, and every other status by one
  \<^verbatim>\<open>updateApplicationStatus\<close> call keyed by \<^verbatim>\<open>organisation:grant\<close>, with no
  \<^verbatim>\<open>setState\<close> call, so the session state is not rewritten. Seen from the callback:
  after the GAS call of a reconciliation that matched a rule, these are the only calls made,
  and there is none when the rule keeps the status SUBMITTED.
\<close>

theorem persistStatus_writes:
  "(js_of newStatus = previousStatus \<longrightarrow>
      persistStatus env req newStatus previousStatus grantId = (Inr (), [])) \<and>
   (js_of newStatus \<noteq> previousStatus \<and> newStatus = Some ''CLEARED'' \<longrightarrow>
      snd (persistStatus env req newStatus previousStatus grantId) =
        [SetState [(''applicationStatus'', JStr ''CLEARED'')]]) \<and>
   (js_of newStatus \<noteq> previousStatus \<and> newStatus \<noteq> Some ''CLEARED'' \<longrightarrow>
      snd (persistStatus env req newStatus previousStatus grantId) =
        [UpdateApplicationStatus (js_of newStatus) (template (sbi req) @ '':'' @ grantId)]) \<and>
   (\<forall>s c ref g r p.
      slug req = Some s \<and> s \<noteq> [] \<and> grantCode req = Some c \<and> c \<noteq> [] \<and>
      getProp (state ctx) ''applicationStatus'' = JStr ''SUBMITTED'' \<and>
      referenceNumber ctx = Some ref \<and> gasResponse env = Inr g \<and>
      mapStatusToUrl (JStr ''SUBMITTED'') g (postSubmissionRules (grantRedirectRules req))
        = Inr r \<and>
      fst (persistStatus env req (toGrantsStatus r) (JStr ''SUBMITTED'') s) = Inr () \<and>
      toPath r = Some p \<longrightarrow>
      snd (formsStatusCallback env req ctx) =
        GetApplicationStatus c (toLowerCase ref) #
        (if toGrantsStatus r = Some ''SUBMITTED'' then []
         else if toGrantsStatus r = Some ''CLEARED''
         then [SetState [(''applicationStatus'', JStr ''CLEARED'')]]
         else [UpdateApplicationStatus (js_of (toGrantsStatus r))
                 (template (sbi req) @ '':'' @ s)]))"
proof (intro conjI allI impI)
  fix s c ref g r p
  assume "slug req = Some s \<and> s \<noteq> [] \<and> grantCode req = Some c \<and> c \<noteq> [] \<and>
      getProp (state ctx) ''applicationStatus'' = JStr ''SUBMITTED'' \<and>
      referenceNumber ctx = Some ref \<and> gasResponse env = Inr g \<and>
      mapStatusToUrl (JStr ''SUBMITTED'') g (postSubmissionRules (grantRedirectRules req))
        = Inr r \<and>
      fst (persistStatus env req (toGrantsStatus r) (JStr ''SUBMITTED'') s) = Inr () \<and>
      toPath r = Some p"
  then have "snd (formsStatusCallback env req ctx) =
        GetApplicationStatus c (toLowerCase ref) #
        snd (persistStatus env req (toGrantsStatus r) (JStr ''SUBMITTED'') s)"
    using callback_success[of req s c ctx ref env g r p] by (simp add: Let_def)
  also have "snd (persistStatus env req (toGrantsStatus r) (JStr ''SUBMITTED'') s) =
        (if toGrantsStatus r = Some ''SUBMITTED'' then []
         else if toGrantsStatus r = Some ''CLEARED''
         then [SetState [(''applicationStatus'', JStr ''CLEARED'')]]
         else [UpdateApplicationStatus (js_of (toGrantsStatus r))
                 (template (sbi req) @ '':'' @ s)])"
    by (cases "toGrantsStatus r")
       (auto simp add: persistStatus_def ApplicationStatus_CLEARED_def Let_def)
  finally show "snd (formsStatusCallback env req ctx) =
        GetApplicationStatus c (toLowerCase ref) #
        (if toGrantsStatus r = Some ''SUBMITTED'' then []
         else if toGrantsStatus r = Some ''CLEARED''
         then [SetState [(''applicationStatus'', JStr ''CLEARED'')]]
         else [UpdateApplicationStatus (js_of (toGrantsStatus r))
                 (template (sbi req) @ '':'' @ s)])" .
qed (auto simp add: persistStatus_def ApplicationStatus_CLEARED_def Let_def)

theorem persistStatus_writes_witness:
  "persistStatus (testEnv (Inr (JStr ''RECEIVED''))) (testRequest ''/grant-a/start'')
     (Some ''SUBMITTED'') (JStr ''SUBMITTED'') ''grant-a'' = (Inr (), []) \<and>
   snd (persistStatus (testEnv (Inr (JStr ''APPLICATION_WITHDRAWN''))) (testRequest ''/grant-a/start'')
     (Some ''CLEARED'') (JStr ''SUBMITTED'') ''grant-a'') =
     [SetState [(''applicationStatus'', JStr ''CLEARED'')]] \<and>
   snd (persistStatus (testEnv (Inr (JStr ''AWAITING_AMENDMENTS''))) (testRequest ''/grant-a/start'')
     (Some ''REOPENED'') (JStr ''SUBMITTED'') ''grant-a'') =
     [UpdateApplicationStatus (JStr ''REOPENED'') ''12345:grant-a''] \<and>
   snd (formsStatusCallback (testEnv (Inr (JStr ''RECEIVED''))) (testRequest ''/grant-a/start'')
          (testContext [(''applicationStatus'', JStr ''SUBMITTED'')])) =
     [GetApplicationStatus ''grant-a-code'' ''ref-001'']"
proof -
  let ?env = "testEnv (Inr (JStr ''RECEIVED''))"
  let ?req = "testRequest ''/grant-a/start''"
  let ?ctx = "testContext [(''applicationStatus'', JStr ''SUBMITTED'')]"
  let ?r = "mkRule ''SUBMITTED'' ''default'' ''SUBMITTED'' ''/confirmation''"
  have h: "slug ?req = Some ''grant-a'' \<and> ''grant-a'' \<noteq> [] \<and>
      grantCode ?req = Some ''grant-a-code'' \<and> ''grant-a-code'' \<noteq> [] \<and>
      getProp (state ?ctx) ''applicationStatus'' = JStr ''SUBMITTED'' \<and>
      referenceNumber ?ctx = Some ''REF-001'' \<and> gasResponse ?env = Inr (JStr ''RECEIVED'') \<and>
      mapStatusToUrl (JStr ''SUBMITTED'') (JStr ''RECEIVED'')
        (postSubmissionRules (grantRedirectRules ?req)) = Inr ?r \<and>
      fst (persistStatus ?env ?req (toGrantsStatus ?r) (JStr ''SUBMITTED'') ''grant-a'') = Inr () \<and>
      toPath ?r = Some ''/confirmation''"
    by (simp add: mapStatusToUrl_def ruleMatches_def persistStatus_def rule_eval fixture_eval)
  note t = persistStatus_writes[of "Some ''SUBMITTED''" "JStr ''SUBMITTED''" ?env ?req
             "''grant-a''" ?ctx]
  from t have "slug ?req = Some ''grant-a'' \<and> ''grant-a'' \<noteq> [] \<and>
      grantCode ?req = Some ''grant-a-code'' \<and> ''grant-a-code'' \<noteq> [] \<and>
      getProp (state ?ctx) ''applicationStatus'' = JStr ''SUBMITTED'' \<and>
      referenceNumber ?ctx = Some ''REF-001'' \<and> gasResponse ?env = Inr (JStr ''RECEIVED'') \<and>
      mapStatusToUrl (JStr ''SUBMITTED'') (JStr ''RECEIVED'')
        (postSubmissionRules (grantRedirectRules ?req)) = Inr ?r \<and>
      fst (persistStatus ?env ?req (toGrantsStatus ?r) (JStr ''SUBMITTED'') ''grant-a'') = Inr () \<and>
      toPath ?r = Some ''/confirmation'' \<longrightarrow>
      snd (formsStatusCallback ?env ?req ?ctx) =
        GetApplicationStatus ''grant-a-code'' (toLowerCase ''REF-001'') #
        (if toGrantsStatus ?r = Some ''SUBMITTED'' then []
         else if toGrantsStatus ?r = Some ''CLEARED''
         then [SetState [(''applicationStatus'', JStr ''CLEARED'')]]
         else [UpdateApplicationStatus (js_of (toGrantsStatus ?r))
                 (template (sbi ?req) @ '':'' @ ''grant-a'')])"
    by blast
  with h have e: "snd (formsStatusCallback ?env ?req ?ctx) =
                    [GetApplicationStatus ''grant-a-code'' ''ref-001'']"
    by (simp add: lower_ref mkRule_def)
  show ?thesis
    using t e
        persistStatus_writes[of "Some ''CLEARED''" "JStr ''SUBMITTED''"
          "testEnv (Inr (JStr ''APPLICATION_WITHDRAWN''))" ?req "''grant-a''" ?ctx]
        persistStatus_writes[of "Some ''REOPENED''" "JStr ''SUBMITTED''"
          "testEnv (Inr (JStr ''AWAITING_AMENDMENTS''))" ?req "''grant-a''" ?ctx]
    by (simp add: testRequest_def)
qed


section \<open>A reopened application\<close>

text \<open>
  C5, as the code has it. When the previous status is REOPENED, whatever GAS would answer
  (AWAITING_AMENDMENTS included), the callback calls no collaborator at all: no GAS call, no
  \<^verbatim>\<open>updateApplicationStatus\<close>, no \<^verbatim>\<open>setState\<close>. Its answer is the pre-submission
  guard's: for a grant with a slug, a grant code and a pre-submission rule it redirects to
  the resume path when the state is meaningful, the request is for the start page and the
  journey is no tasklist, and continues otherwise.
\<close>

theorem reopened_never_writes:
  assumes "getProp (state ctx) ''applicationStatus'' = JStr ''REOPENED''"
  shows "snd (formsStatusCallback env req ctx) = [] \<and>
         (\<forall>s c grr pr others p.
            slug req = Some s \<and> s \<noteq> [] \<and> grantCode req = Some c \<and> c \<noteq> [] \<and>
            grantRedirectRules req = Some grr \<and> preSubmission grr = Some (pr # others) \<and>
            toPath pr = Some p \<longrightarrow>
            fst (formsStatusCallback env req ctx) =
              Inr (if hasMeaningfulState (state ctx) \<and> isFormsStartPage req ctx \<and>
                      \<not> isTasklistPage req
                   then Redirect (if startsWithSlash p then ''/'' @ s @ p
                                  else ''/'' @ s @ ''/'' @ p)
                   else Continue))"
proof -
  have pre: "shouldHandlePreSubmission (getProp (state ctx) ''applicationStatus'')"
    using assms reopened_preSubmission by simp
  show ?thesis
  proof (intro conjI allI impI)
    show "snd (formsStatusCallback env req ctx) = []"
      by (rule callback_presubmission[OF pre])
  next
    fix s c grr pr others p
    assume h: "slug req = Some s \<and> s \<noteq> [] \<and> grantCode req = Some c \<and> c \<noteq> [] \<and>
            grantRedirectRules req = Some grr \<and> preSubmission grr = Some (pr # others) \<and>
            toPath pr = Some p"
    then have "formsStatusCallback env req ctx =
           (Inr (if hasMeaningfulState (state ctx) \<and> isFormsStartPage req ctx \<and>
                    \<not> isTasklistPage req
                 then Redirect (if startsWithSlash p then ''/'' @ s @ p else ''/'' @ s @ ''/'' @ p)
                 else Continue), [])"
      using callback_resume[OF pre, of req s c grr pr others p env] by simp
    then show "fst (formsStatusCallback env req ctx) =
              Inr (if hasMeaningfulState (state ctx) \<and> isFormsStartPage req ctx \<and>
                      \<not> isTasklistPage req
                   then Redirect (if startsWithSlash p then ''/'' @ s @ p
                                  else ''/'' @ s @ ''/'' @ p)
                   else Continue)"
      by simp
  qed
qed

theorem reopened_never_writes_witness:
  "snd (formsStatusCallback (testEnv (Inr (JStr ''AWAITING_AMENDMENTS'')))
          (testRequest ''/grant-a/confirmation'')
          (testContext [(''applicationStatus'', JStr ''REOPENED''),
                        (''question'', JStr ''answer'')])) = [] \<and>
   fst (formsStatusCallback (testEnv (Inr (JStr ''AWAITING_AMENDMENTS'')))
          (testRequest ''/grant-a/confirmation'')
          (testContext [(''applicationStatus'', JStr ''REOPENED''),
                        (''question'', JStr ''answer'')])) = Inr Continue"
proof -
  let ?env = "testEnv (Inr (JStr ''AWAITING_AMENDMENTS''))"
  let ?req = "testRequest ''/grant-a/confirmation''"
  let ?ctx = "testContext [(''applicationStatus'', JStr ''REOPENED''),
                           (''question'', JStr ''answer'')]"
  have a: "getProp (state ?ctx) ''applicationStatus'' = JStr ''REOPENED''"
    by (simp add: fixture_eval)
  have b: "slug ?req = Some ''grant-a'' \<and> ''grant-a'' \<noteq> [] \<and>
           grantCode ?req = Some ''grant-a-code'' \<and> ''grant-a-code'' \<noteq> [] \<and>
           grantRedirectRules ?req = Some testRules \<and>
           preSubmission testRules = Some (hd testPreSubmission # []) \<and>
           toPath (hd testPreSubmission) = Some ''/check-selected-land-actions''"
    by (simp add: fixture_eval)
  have c: "\<not> isFormsStartPage ?req ?ctx"
    by (simp add: isFormsStartPage_def fixture_eval)
  note t = reopened_never_writes[OF a, of ?env ?req]
  from t have t1: "snd (formsStatusCallback ?env ?req ?ctx) = []" by (rule conjunct1)
  from t have "slug ?req = Some ''grant-a'' \<and> ''grant-a'' \<noteq> [] \<and>
           grantCode ?req = Some ''grant-a-code'' \<and> ''grant-a-code'' \<noteq> [] \<and>
           grantRedirectRules ?req = Some testRules \<and>
           preSubmission testRules = Some (hd testPreSubmission # []) \<and>
           toPath (hd testPreSubmission) = Some ''/check-selected-land-actions'' \<longrightarrow>
            fst (formsStatusCallback ?env ?req ?ctx) =
              Inr (if hasMeaningfulState (state ?ctx) \<and> isFormsStartPage ?req ?ctx \<and>
                      \<not> isTasklistPage ?req
                   then Redirect (if startsWithSlash ''/check-selected-land-actions''
                                  then ''/'' @ ''grant-a'' @ ''/check-selected-land-actions''
                                  else ''/'' @ ''grant-a'' @ ''/'' @
                                       ''/check-selected-land-actions'')
                   else Continue)"
    by blast
  with b c have "fst (formsStatusCallback ?env ?req ?ctx) = Inr Continue"
    by simp
  with t1 show ?thesis by simp
qed

text \<open>
  C5 as worded fails where it says the callback returns continue: a reopened application
  with a saved answer, requested at the start page, is redirected to the resume path, as
  the status helper's tests expect of the status REOPENED.
\<close>

theorem reopened_redirect_counterexample:
  "formsStatusCallback (testEnv (Inr (JStr ''AWAITING_AMENDMENTS''))) (testRequest ''/grant-a/start'')
     (testContext [(''applicationStatus'', JStr ''REOPENED''), (''question'', JStr ''answer'')]) =
     (Inr (Redirect ''/grant-a/check-selected-land-actions''), [])"
  by (simp add: callback_eval fixture_eval)


section \<open>Reconciliation at the destination\<close>

text \<open>
  C6. For a SUBMITTED application: when GAS answers, a rule matches, the status write (if
  any) succeeds and the destination computed from the matched rule is the request's current
  path, the callback returns continue. And whenever the callback answers a request with a
  redirect, the same reconciliation requested at that destination returns continue: there is
  no second redirect.
\<close>

theorem reconcile_idempotent:
  assumes "getProp (state ctx) ''applicationStatus'' = JStr ''SUBMITTED''"
  shows "(\<forall>s c ref g r p.
            slug req = Some s \<and> s \<noteq> [] \<and> grantCode req = Some c \<and> c \<noteq> [] \<and>
            referenceNumber ctx = Some ref \<and> gasResponse env = Inr g \<and>
            mapStatusToUrl (JStr ''SUBMITTED'') g (postSubmissionRules (grantRedirectRules req))
              = Inr r \<and>
            fst (persistStatus env req (toGrantsStatus r) (JStr ''SUBMITTED'') s) = Inr () \<and>
            toPath r = Some p \<and>
            path req = (if p = agreementsBaseUrl env then p
                        else if startsWithSlash p then ''/'' @ s @ p
                        else ''/'' @ s @ ''/'' @ p) \<longrightarrow>
            fst (formsStatusCallback env req ctx) = Inr Continue) \<and>
         (\<forall>url. fst (formsStatusCallback env req ctx) = Inr (Redirect url) \<longrightarrow>
            fst (formsStatusCallback env (req\<lparr>path := url\<rparr>) ctx) = Inr Continue)"
proof (intro conjI allI impI)
  fix s c ref g r p
  assume "slug req = Some s \<and> s \<noteq> [] \<and> grantCode req = Some c \<and> c \<noteq> [] \<and>
            referenceNumber ctx = Some ref \<and> gasResponse env = Inr g \<and>
            mapStatusToUrl (JStr ''SUBMITTED'') g (postSubmissionRules (grantRedirectRules req))
              = Inr r \<and>
            fst (persistStatus env req (toGrantsStatus r) (JStr ''SUBMITTED'') s) = Inr () \<and>
            toPath r = Some p \<and>
            path req = (if p = agreementsBaseUrl env then p
                        else if startsWithSlash p then ''/'' @ s @ p
                        else ''/'' @ s @ ''/'' @ p)"
  then show "fst (formsStatusCallback env req ctx) = Inr Continue"
    using callback_success[of req s c ctx ref env g r p] assms
    by (simp add: Let_def)
next
  fix url
  assume "fst (formsStatusCallback env req ctx) = Inr (Redirect url)"
  with assms show "fst (formsStatusCallback env (req\<lparr>path := url\<rparr>) ctx) = Inr Continue"
    by (rule callback_redirect_then_continue)
qed

text \<open>
  GAS answers RECEIVED: the request for the start page is redirected to the confirmation
  page, and the request for the confirmation page continues.
\<close>

theorem reconcile_idempotent_witness:
  "fst (formsStatusCallback (testEnv (Inr (JStr ''RECEIVED''))) (testRequest ''/grant-a/start'')
          (testContext [(''applicationStatus'', JStr ''SUBMITTED'')])) =
     Inr (Redirect ''/grant-a/confirmation'') \<and>
   fst (formsStatusCallback (testEnv (Inr (JStr ''RECEIVED'')))
          (testRequest ''/grant-a/confirmation'')
          (testContext [(''applicationStatus'', JStr ''SUBMITTED'')])) = Inr Continue"
proof -
  let ?env = "testEnv (Inr (JStr ''RECEIVED''))"
  let ?ctx = "testContext [(''applicationStatus'', JStr ''SUBMITTED'')]"
  have a: "getProp (state ?ctx) ''applicationStatus'' = JStr ''SUBMITTED''"
    by (simp add: fixture_eval)
  have first: "fst (formsStatusCallback ?env (testRequest ''/grant-a/start'') ?ctx) =
                 Inr (Redirect ''/grant-a/confirmation'')"
    by (simp add: callback_eval fixture_eval rule_eval)
  have upd: "(testRequest ''/grant-a/start'')\<lparr>path := ''/grant-a/confirmation''\<rparr> =
               testRequest ''/grant-a/confirmation''"
    by (simp add: testRequest_def)
  from reconcile_idempotent[OF a, of "testRequest ''/grant-a/start''" ?env]
  have "fst (formsStatusCallback ?env (testRequest ''/grant-a/start'') ?ctx) =
          Inr (Redirect ''/grant-a/confirmation'') \<longrightarrow>
        fst (formsStatusCallback ?env
               ((testRequest ''/grant-a/start'')\<lparr>path := ''/grant-a/confirmation''\<rparr>) ?ctx) =
          Inr Continue"
    by blast
  with first upd show ?thesis by simp
qed


section \<open>Startup validation\<close>

text \<open>
  C7. \<open>validateGrantRedirectRules\<close> throws for every grant whose pre-submission list
  does not hold exactly one rule, whose post-submission list is absent or empty, or whose
  post-submission list holds no rule with fromGrantsStatus 'default' and gasStatus 'default'.
\<close>

theorem validateGrantRedirectRules_rejects:
  assumes "length (preSubmissionRules rr) \<noteq> 1 \<or> postSubmissionRules rr = [] \<or>
           \<not> (\<exists>r \<in> set (postSubmissionRules rr).
                 fromGrantsStatus r = Some ''default'' \<and> gasStatus r = Some ''default'')"
  shows "\<exists>e. validateGrantRedirectRules rr = Inl e"
  using assms
  by (auto simp add: validateGrantRedirectRules_def hasFallbackRule_def list_ex_iff Let_def)

theorem validateGrantRedirectRules_rejects_witness:
  "(\<exists>e. validateGrantRedirectRules
          (Some \<lparr>preSubmission = Some [], postSubmission = Some testPostSubmission\<rparr>) = Inl e) \<and>
   (\<exists>e. validateGrantRedirectRules
          (Some \<lparr>preSubmission = Some testPreSubmission, postSubmission = None\<rparr>) = Inl e) \<and>
   (\<exists>e. validateGrantRedirectRules
          (Some \<lparr>preSubmission = Some testPreSubmission,
                 postSubmission =
                   Some [mkRule ''SUBMITTED'' ''default'' ''SUBMITTED'' ''/confirmation'']\<rparr>)
          = Inl e)"
proof (intro conjI)
  show "\<exists>e. validateGrantRedirectRules
          (Some \<lparr>preSubmission = Some [], postSubmission = Some testPostSubmission\<rparr>) = Inl e"
    by (rule validateGrantRedirectRules_rejects) (simp add: preSubmissionRules_def)
  show "\<exists>e. validateGrantRedirectRules
          (Some \<lparr>preSubmission = Some testPreSubmission, postSubmission = None\<rparr>) = Inl e"
    by (rule validateGrantRedirectRules_rejects) (simp add: postSubmissionRules_def)
  show "\<exists>e. validateGrantRedirectRules
          (Some \<lparr>preSubmission = Some testPreSubmission,
                 postSubmission =
                   Some [mkRule ''SUBMITTED'' ''default'' ''SUBMITTED'' ''/confirmation'']\<rparr>)
          = Inl e"
    by (rule validateGrantRedirectRules_rejects) (simp add: postSubmissionRules_def mkRule_def)
qed


section \<open>The pre-submission guard\<close>

text \<open>
  C8, as the code has it. For a request whose previous status is unset (falsy), CLEARED or
  REOPENED, of a grant with a slug, a grant code and a pre-submission rule, the callback
  calls no collaborator (no GAS call) and redirects to the resume path exactly when the
  session state has a key other than \<^verbatim>\<open>$$__referenceNumber\<close>,
  \<^verbatim>\<open>applicationStatus\<close>, \<^verbatim>\<open>applicant\<close>, \<^verbatim>\<open>selectedLandParcel\<close>,
  \<^verbatim>\<open>payment\<close> and \<^verbatim>\<open>draftApplicationAnnualTotalPence\<close> (the key
  \<^verbatim>\<open>landParcels\<close> counting only when its value has an entry), the current path is
  \<^verbatim>\<open>/{slug}\<close> followed by the first configured path, and the journey has no tasklist
  id; otherwise it continues.
\<close>

theorem preSubmission_guard:
  assumes "shouldHandlePreSubmission (getProp (state ctx) ''applicationStatus'')"
    and "slug req = Some s" "s \<noteq> []" "grantCode req = Some c" "c \<noteq> []"
    and "grantRedirectRules req = Some grr" "preSubmission grr = Some (pr # others)"
    and "toPath pr = Some p"
  shows "formsStatusCallback env req ctx =
           (Inr (if (\<exists>k \<in> fst ` set (state ctx).
                       k \<notin> {''$$__referenceNumber'', ''applicationStatus'', ''applicant'',
                             ''selectedLandParcel'', ''payment'',
                             ''draftApplicationAnnualTotalPence''} \<and>
                       (k = ''landParcels'' \<longrightarrow>
                          object_keys_length (getProp (state ctx) ''landParcels'') \<noteq> 0)) \<and>
                    (\<exists>p0 ps. paths ctx = Some (p0 # ps) \<and> p0 \<noteq> [] \<and>
                       path req = ''/'' @ s @ p0) \<and>
                    (tasklistId req = JUndefined \<or> tasklistId req = JNull)
                 then Redirect (if startsWithSlash p then ''/'' @ s @ p else ''/'' @ s @ ''/'' @ p)
                 else Continue), [])"
proof -
  have sp: "isFormsStartPage req ctx \<longleftrightarrow>
              (\<exists>p0 ps. paths ctx = Some (p0 # ps) \<and> p0 \<noteq> [] \<and> path req = ''/'' @ s @ p0)"
    using assms(2,3) by (simp add: isFormsStartPage_iff)
  have tl: "\<not> isTasklistPage req \<longleftrightarrow> (tasklistId req = JUndefined \<or> tasklistId req = JNull)"
    by (auto simp add: isTasklistPage_def)
  show ?thesis
    unfolding callback_resume[OF assms, of env] hasMeaningfulState_iff sp tl ..
qed

text \<open>
  A cleared application with a saved answer is redirected from the start page; a state that
  holds only a payment and an empty \<^verbatim>\<open>landParcels\<close> is not.
\<close>

theorem preSubmission_guard_witness:
  "formsStatusCallback (testEnv (Inr (JStr ''RECEIVED''))) (testRequest ''/grant-a/start'')
     (testContext [(''applicationStatus'', JStr ''CLEARED''), (''question'', JStr ''answer'')]) =
     (Inr (Redirect ''/grant-a/check-selected-land-actions''), []) \<and>
   formsStatusCallback (testEnv (Inr (JStr ''RECEIVED''))) (testRequest ''/grant-a/start'')
     (testContext [(''payment'', JNum 5), (''landParcels'', JObj [])]) =
     (Inr Continue, [])"
proof -
  let ?env = "testEnv (Inr (JStr ''RECEIVED''))"
  let ?req = "testRequest ''/grant-a/start''"
  let ?c1 = "testContext [(''applicationStatus'', JStr ''CLEARED''),
                          (''question'', JStr ''answer'')]"
  let ?c2 = "testContext [(''payment'', JNum 5), (''landParcels'', JObj [])]"
  have p1: "shouldHandlePreSubmission (getProp (state ?c1) ''applicationStatus'')"
    by (simp add: shouldHandlePreSubmission_def ApplicationStatus_CLEARED_def fixture_eval)
  have p2: "shouldHandlePreSubmission (getProp (state ?c2) ''applicationStatus'')"
    by (simp add: shouldHandlePreSubmission_def fixture_eval)
  have r: "slug ?req = Some ''grant-a''" "''grant-a'' \<noteq> []"
    "grantCode ?req = Some ''grant-a-code''" "''grant-a-code'' \<noteq> []"
    "grantRedirectRules ?req = Some testRules"
    "preSubmission testRules = Some (hd testPreSubmission # [])"
    "toPath (hd testPreSubmission) = Some ''/check-selected-land-actions''"
    by (simp_all add: fixture_eval)
  show ?thesis
    using preSubmission_guard[OF p1 r, of ?env] preSubmission_guard[OF p2 r, of ?env]
    by (simp add: fixture_eval)
qed

text \<open>
  C8 as worded fails on the set of bookkeeping fields: a cleared state that holds the field
  \<^verbatim>\<open>applicant\<close>, which is neither the reference number nor the status, requested at the
  start page of a journey that is no tasklist, is not redirected.
\<close>

theorem applicant_only_state_counterexample:
  "spec_hasMeaningfulState [(''applicationStatus'', JStr ''CLEARED''), (''applicant'', JObj [])] \<and>
   isFormsStartPage (testRequest ''/grant-a/start'')
     (testContext [(''applicationStatus'', JStr ''CLEARED''), (''applicant'', JObj [])]) \<and>
   \<not> isTasklistPage (testRequest ''/grant-a/start'') \<and>
   formsStatusCallback (testEnv (Inr (JStr ''RECEIVED''))) (testRequest ''/grant-a/start'')
     (testContext [(''applicationStatus'', JStr ''CLEARED''), (''applicant'', JObj [])]) =
     (Inr Continue, [])"
  by (simp add: spec_hasMeaningfulState_def callback_eval fixture_eval)


section \<open>The redirect destination of a matched rule\<close>

text \<open>
  C9. When \<open>handlePostSubmission\<close> has matched a rule (GAS answered, the status write
  succeeded, the guard did not fire), the destination is the rule's path prefixed with the
  grant slug: \<^verbatim>\<open>/{slug}{path}\<close> for a path with a leading slash,
  \<^verbatim>\<open>/{slug}/{path}\<close> for one without; except that a path equal to the configured
  agreements base URL is the destination as it is. The answer is continue when the request
  is already there, and a redirect to the destination otherwise.
\<close>

theorem redirect_destination:
  assumes "referenceNumber ctx = Some ref" "gasResponse env = Inr g"
    and "mapStatusToUrl prev g (postSubmissionRules rules) = Inr r"
    and "fst (persistStatus env req (toGrantsStatus r) prev (template (slug req))) = Inr ()"
    and "\<not> shouldContinueDefault g (toGrantsStatus r) prev"
    and "toPath r = Some p" "slug req = Some s"
  shows "fst (handlePostSubmission env req ctx prev c rules) =
           (let dest = (if p = agreementsBaseUrl env then p
                        else if startsWithSlash p then ''/'' @ s @ p
                        else ''/'' @ s @ ''/'' @ p)
            in Inr (if path req = dest then Continue else Redirect dest))"
  using handlePostSubmission_success[OF assms(1-6), of c] assms(7)
  by (simp add: Let_def)

theorem redirect_destination_witness:
  "fst (handlePostSubmission (testEnv (Inr (JStr ''AWAITING_AMENDMENTS'')))
          (testRequest ''/grant-a/start'')
          (testContext [(''applicationStatus'', JStr ''SUBMITTED'')]) (JStr ''SUBMITTED'')
          ''grant-a-code'' (Some testRules)) = Inr (Redirect ''/grant-a/summary'') \<and>
   fst (handlePostSubmission (testEnv (Inr (JStr ''OFFER_SENT''))) (testRequest ''/grant-a/start'')
          (testContext [(''applicationStatus'', JStr ''SUBMITTED'')]) (JStr ''SUBMITTED'')
          ''grant-a-code'' (Some testRules)) = Inr (Redirect ''/agreement'')"
proof -
  let ?req = "testRequest ''/grant-a/start''"
  let ?ctx = "testContext [(''applicationStatus'', JStr ''SUBMITTED'')]"
  let ?e1 = "testEnv (Inr (JStr ''AWAITING_AMENDMENTS''))"
  let ?e2 = "testEnv (Inr (JStr ''OFFER_SENT''))"
  let ?r1 = "mkRule ''SUBMITTED'' ''AWAITING_AMENDMENTS'' ''REOPENED'' ''/summary''"
  let ?r2 = "mkRule ''SUBMITTED'' ''OFFER_SENT,OFFER_WITHDRAWN,OFFER_ACCEPTED'' ''SUBMITTED''
               ''/agreement''"
  have ref: "referenceNumber ?ctx = Some ''REF-001''" by (simp add: fixture_eval)
  have sl: "slug ?req = Some ''grant-a''" by (simp add: fixture_eval)
  have g1: "gasResponse ?e1 = Inr (JStr ''AWAITING_AMENDMENTS'')" by (simp add: fixture_eval)
  have g2: "gasResponse ?e2 = Inr (JStr ''OFFER_SENT'')" by (simp add: fixture_eval)
  have m1: "mapStatusToUrl (JStr ''SUBMITTED'') (JStr ''AWAITING_AMENDMENTS'')
              (postSubmissionRules (Some testRules)) = Inr ?r1"
    by (simp add: mapStatusToUrl_def ruleMatches_def rule_eval fixture_eval)
  have m2: "mapStatusToUrl (JStr ''SUBMITTED'') (JStr ''OFFER_SENT'')
              (postSubmissionRules (Some testRules)) = Inr ?r2"
    by (simp add: mapStatusToUrl_def ruleMatches_def rule_eval fixture_eval)
  have w1: "fst (persistStatus ?e1 ?req (toGrantsStatus ?r1) (JStr ''SUBMITTED'')
                   (template (slug ?req))) = Inr ()"
    by (simp add: persistStatus_def mkRule_def fixture_eval)
  have w2: "fst (persistStatus ?e2 ?req (toGrantsStatus ?r2) (JStr ''SUBMITTED'')
                   (template (slug ?req))) = Inr ()"
    by (simp add: persistStatus_def mkRule_def fixture_eval)
  have p1: "toPath ?r1 = Some ''/summary''" by (simp add: mkRule_def)
  have p2: "toPath ?r2 = Some ''/agreement''" by (simp add: mkRule_def)
  show ?thesis
    using redirect_destination[OF ref g1 m1 w1 guard_submitted p1 sl, of "''grant-a-code''"]
          redirect_destination[OF ref g2 m2 w2 guard_submitted p2 sl, of "''grant-a-code''"]
    by (simp add: fixture_eval)
qed


section \<open>The no-regression guard during reconciliation\<close>

text \<open>
  C10. Unless the previous status is the string SUBMITTED, the callback calls no collaborator
  and its answer does not depend on them, so \<open>handlePostSubmission\<close>, which begins with
  the GAS call, runs only with the previous status SUBMITTED; for any other status that is
  not unset, CLEARED or REOPENED the callback continues. With the previous status SUBMITTED,
  \<open>shouldContinueDefault\<close> is false for every GAS status and new status. Hence a
  continue after a matched rule comes only from the request already being at the rule's
  destination, never from the guard.
\<close>

theorem guard_cases_unreachable:
  "(getProp (state ctx) ''applicationStatus'' \<noteq> JStr ''SUBMITTED'' \<longrightarrow>
      snd (formsStatusCallback env req ctx) = [] \<and>
      formsStatusCallback env req ctx = formsStatusCallback env' req ctx \<and>
      (\<forall>c. \<not> shouldHandlePreSubmission (getProp (state ctx) ''applicationStatus'') \<and>
           grantCode req = Some c \<and> c \<noteq> [] \<longrightarrow>
           formsStatusCallback env req ctx = (Inr Continue, []))) \<and>
   \<not> shouldContinueDefault g n (JStr ''SUBMITTED'') \<and>
   (\<forall>s c ref r p.
      slug req = Some s \<and> s \<noteq> [] \<and> grantCode req = Some c \<and> c \<noteq> [] \<and>
      getProp (state ctx) ''applicationStatus'' = JStr ''SUBMITTED'' \<and>
      referenceNumber ctx = Some ref \<and> gasResponse env = Inr g \<and>
      mapStatusToUrl (JStr ''SUBMITTED'') g (postSubmissionRules (grantRedirectRules req))
        = Inr r \<and>
      fst (persistStatus env req (toGrantsStatus r) (JStr ''SUBMITTED'') s) = Inr () \<and>
      toPath r = Some p \<and>
      fst (formsStatusCallback env req ctx) = Inr Continue \<longrightarrow>
      path req = (if p = agreementsBaseUrl env then p
                  else if startsWithSlash p then ''/'' @ s @ p
                  else ''/'' @ s @ ''/'' @ p))"
proof (intro conjI allI impI)
  assume "getProp (state ctx) ''applicationStatus'' \<noteq> JStr ''SUBMITTED''"
  then show "snd (formsStatusCallback env req ctx) = []"
    by (rule callback_not_submitted)
next
  assume "getProp (state ctx) ''applicationStatus'' \<noteq> JStr ''SUBMITTED''"
  then show "formsStatusCallback env req ctx = formsStatusCallback env' req ctx"
    by (rule callback_independent)
next
  fix c
  assume "getProp (state ctx) ''applicationStatus'' \<noteq> JStr ''SUBMITTED''"
    and "\<not> shouldHandlePreSubmission (getProp (state ctx) ''applicationStatus'') \<and>
         grantCode req = Some c \<and> c \<noteq> []"
  then show "formsStatusCallback env req ctx = (Inr Continue, [])"
    using callback_other_status[of ctx req c env] by simp
next
  show "\<not> shouldContinueDefault g n (JStr ''SUBMITTED'')"
    by (rule guard_submitted)
next
  fix s c ref r p
  assume "slug req = Some s \<and> s \<noteq> [] \<and> grantCode req = Some c \<and> c \<noteq> [] \<and>
      getProp (state ctx) ''applicationStatus'' = JStr ''SUBMITTED'' \<and>
      referenceNumber ctx = Some ref \<and> gasResponse env = Inr g \<and>
      mapStatusToUrl (JStr ''SUBMITTED'') g (postSubmissionRules (grantRedirectRules req))
        = Inr r \<and>
      fst (persistStatus env req (toGrantsStatus r) (JStr ''SUBMITTED'') s) = Inr () \<and>
      toPath r = Some p \<and>
      fst (formsStatusCallback env req ctx) = Inr Continue"
  then show "path req = (if p = agreementsBaseUrl env then p
                  else if startsWithSlash p then ''/'' @ s @ p
                  else ''/'' @ s @ ''/'' @ p)"
    using callback_success[of req s c ctx ref env g r p]
    by (simp add: Let_def split: if_splits)
qed

text \<open>
  A status outside the portal's four values reaches neither the guard nor GAS, and the
  continue at the confirmation page after RECEIVED is the continue of being there.
\<close>

theorem guard_cases_unreachable_witness:
  "formsStatusCallback (testEnv (Inr (JStr ''AWAITING_AMENDMENTS''))) (testRequest ''/grant-a/start'')
     (testContext [(''applicationStatus'', JStr ''ARCHIVED'')]) = (Inr Continue, []) \<and>
   \<not> shouldContinueDefault (JStr ''AWAITING_AMENDMENTS'') (Some ''REOPENED'') (JStr ''SUBMITTED'') \<and>
   \<not> shouldContinueDefault (JStr ''APPLICATION_WITHDRAWN'') (Some ''CLEARED'') (JStr ''SUBMITTED'')"
proof -
  let ?env = "testEnv (Inr (JStr ''AWAITING_AMENDMENTS''))"
  let ?req = "testRequest ''/grant-a/start''"
  let ?ctx = "testContext [(''applicationStatus'', JStr ''ARCHIVED'')]"
  have a: "getProp (state ?ctx) ''applicationStatus'' \<noteq> JStr ''SUBMITTED''"
    by (simp add: fixture_eval)
  have b: "\<not> shouldHandlePreSubmission (getProp (state ?ctx) ''applicationStatus'') \<and>
           grantCode ?req = Some ''grant-a-code'' \<and> ''grant-a-code'' \<noteq> []"
    by (simp add: shouldHandlePreSubmission_def ApplicationStatus_CLEARED_def
        ApplicationStatus_REOPENED_def fixture_eval)
  note t1 = guard_cases_unreachable[of ?ctx ?env ?req ?env "JStr ''AWAITING_AMENDMENTS''"
              "Some ''REOPENED''"]
  note t2 = guard_cases_unreachable[of ?ctx ?env ?req ?env "JStr ''APPLICATION_WITHDRAWN''"
              "Some ''CLEARED''"]
  from t1 a b have "formsStatusCallback ?env ?req ?ctx = (Inr Continue, [])"
    by blast
  moreover from t1 have "\<not> shouldContinueDefault (JStr ''AWAITING_AMENDMENTS'')
                             (Some ''REOPENED'') (JStr ''SUBMITTED'')"
    by blast
  moreover from t2 have "\<not> shouldContinueDefault (JStr ''APPLICATION_WITHDRAWN'')
                             (Some ''CLEARED'') (JStr ''SUBMITTED'')"
    by blast
  ultimately show ?thesis by blast
qed

end
